theory Spec2Isabelle
  imports Complex_Main "HOL-Library.AList"
begin

section \<open>Python values, dictionaries and exceptions\<close>

text \<open>
  The program passes \<^verbatim>\<open>Dict[str, Any]\<close> values between its parts. A dictionary is an
  association list in insertion order; \<open>AList.update\<close> is Python's \<^verbatim>\<open>d[k] = v\<close>
  (replace in place, or append a new key at the end) and \<open>map_of\<close> is the lookup.
  HOL values are immutable, so \<^verbatim>\<open>d.copy()\<close> is the identity.
\<close>

datatype pyval = PNone | PInt int | PStr string | PDict "(string \<times> pyval) list"

type_synonym pydict = "(string \<times> pyval) list"

text \<open>An exception is its class with the text that \<^verbatim>\<open>str(e)\<close> gives.\<close>

datatype py_exception =
    Exception string
  | ValueError string
  | TypeError string
  | KeyError string
  | IndexError string
  | OverflowError string
  | RecursionError string

fun str :: "py_exception \<Rightarrow> string" where
  "str (Exception m) = m"
| "str (ValueError m) = m"
| "str (TypeError m) = m"
| "str (KeyError m) = m"
| "str (IndexError m) = m"
| "str (OverflowError m) = m"
| "str (RecursionError m) = m"

section \<open>The orchestrator (agents/orchestrator.py)\<close>

datatype ExecutionState = PENDING | RUNNING | SUCCESS | FAILED | RETRYING

text \<open>
  An agent is called for its effect on the outside world (a completion provider, an index),
  so it is a function of its input and of the world \<open>'w\<close>, returning its output or the
  exception it raised together with the new world. A failure handler gets the step's input
  and the exception. Agents are taken not to mutate the dictionary they are given.
\<close>

type_synonym 'w agent = "pydict \<Rightarrow> 'w \<Rightarrow> (py_exception + pydict) \<times> 'w"
type_synonym 'w handler = "pydict \<Rightarrow> py_exception \<Rightarrow> 'w \<Rightarrow> (py_exception + pydict) \<times> 'w"

record 'w OrchestratorStep =
  name :: string
  agent :: "'w agent"
  retries :: int
  retry_delay :: real
  on_failure :: "'w handler option"

text \<open>
  What a run does besides computing its result: the calls of \<^verbatim>\<open>step.agent.execute\<close>,
  of \<^verbatim>\<open>time.sleep\<close> and of \<^verbatim>\<open>step.on_failure\<close>, in the order they happen.
\<close>

datatype event = AgentExecute string | Sleep real | FailureHandler string

record 'w runtime =
  world :: 'w
  events :: "event list"

text \<open>
  \<^verbatim>\<open>time.sleep\<close> first converts the length to a signed 64-bit count of nanoseconds and
  raises \<^verbatim>\<open>OverflowError\<close> when it does not fit; it then raises \<^verbatim>\<open>ValueError\<close> on a
  negative length, and blocks otherwise.
\<close>

definition time_sleep :: "real \<Rightarrow> 'w runtime \<Rightarrow> (py_exception + unit) \<times> 'w runtime" where
  "time_sleep secs rt =
     (if secs * 10 ^ 9 < - (2 ^ 63) \<or> 2 ^ 63 \<le> secs * 10 ^ 9 then
        (Inl (OverflowError ''timestamp too large to convert to C PyTime_t''), rt)
      else if secs < 0 then (Inl (ValueError ''sleep length must be non-negative''), rt)
      else (Inr (), rt\<lparr>events := events rt @ [Sleep secs]\<rparr>))"

definition call_agent :: "'w OrchestratorStep \<Rightarrow> pydict \<Rightarrow> 'w runtime \<Rightarrow> (py_exception + pydict) \<times> 'w runtime" where
  "call_agent step input_data rt =
     (case agent step input_data (world rt) of
        (r, w') \<Rightarrow> (r, rt\<lparr>world := w', events := events rt @ [AgentExecute (name step)]\<rparr>))"

definition call_handler :: "'w OrchestratorStep \<Rightarrow> 'w handler \<Rightarrow> pydict \<Rightarrow> py_exception \<Rightarrow> 'w runtime
    \<Rightarrow> (py_exception + pydict) \<times> 'w runtime" where
  "call_handler step h input_data e rt =
     (case h input_data e (world rt) of
        (r, w') \<Rightarrow> (r, rt\<lparr>world := w', events := events rt @ [FailureHandler (name step)]\<rparr>))"

text \<open>
  \<^verbatim>\<open>Orchestrator._execute_step\<close>. A retry is a call of the function by itself, from inside
  its \<^verbatim>\<open>except\<close> block, so \<open>R\<close> retries nest \<open>R + 1\<close> calls. The interpreter bounds the
  depth of nested calls (\<^verbatim>\<open>sys.getrecursionlimit()\<close>, 1000 unless changed, and the
  repository does not change it): \<open>room\<close> is the number of nested calls of
  \<^verbatim>\<open>_execute_step\<close> that still fit when it is first called. A call for which no room is
  left raises \<^verbatim>\<open>RecursionError\<close>; like the exception of \<^verbatim>\<open>time.sleep\<close> it is raised inside
  the \<^verbatim>\<open>except\<close> block of the caller and leaves it. An exception of the handler replaces
  the agent's.
\<close>

fun execute_step :: "'w OrchestratorStep \<Rightarrow> pydict \<Rightarrow> int \<Rightarrow> nat \<Rightarrow> 'w runtime
    \<Rightarrow> (py_exception + pydict) \<times> 'w runtime" where
  "execute_step step input_data attempt 0 rt =
     (Inl (RecursionError ''maximum recursion depth exceeded''), rt)"
| "execute_step step input_data attempt (Suc room) rt =
     (case call_agent step input_data rt of
        (Inr output, rt1) \<Rightarrow> (Inr output, rt1)
      | (Inl e, rt1) \<Rightarrow>
          if attempt < retries step then
            (case time_sleep (retry_delay step) rt1 of
               (Inl sleep_error, rt2) \<Rightarrow> (Inl sleep_error, rt2)
             | (Inr _, rt2) \<Rightarrow> execute_step step input_data (attempt + 1) room rt2)
          else
            (case on_failure step of
               Some h \<Rightarrow> call_handler step h input_data e rt1
             | None \<Rightarrow> (Inl e, rt1)))"

record step_log =
  step_name :: string
  step_index :: nat
  log_state :: ExecutionState
  log_input :: pydict
  log_output :: "pydict option"
  log_error :: "string option"
  attempts :: int

text \<open>
  The loop of \<^verbatim>\<open>Orchestrator.execute\<close> from step number \<open>i\<close> on, with the cumulative
  data, the execution log and the runtime passed along; every step starts with the same
  \<open>room\<close> for its nested calls. On an exception the \<^verbatim>\<open>except\<close>
  block appends the step's log entry and re-raises, and the \<^verbatim>\<open>finally\<close> block appends
  the entry again.
\<close>

fun execute_steps :: "'w OrchestratorStep list \<Rightarrow> nat \<Rightarrow> pydict \<Rightarrow> nat \<Rightarrow> step_log list \<Rightarrow> 'w runtime
    \<Rightarrow> (py_exception + pydict) \<times> step_log list \<times> 'w runtime" where
  "execute_steps [] i cumulative_data room lg rt = (Inr cumulative_data, lg, rt)"
| "execute_steps (step # rest) i cumulative_data room lg rt =
     (let pending = \<lparr>step_name = name step, step_index = i, log_state = PENDING,
                     log_input = cumulative_data, log_output = None, log_error = None,
                     attempts = 0\<rparr>;
          running = pending\<lparr>log_state := RUNNING\<rparr>
      in case execute_step step cumulative_data 0 room rt of
           (Inr output, rt') \<Rightarrow>
             let entry = running\<lparr>log_state := SUCCESS, log_output := Some output\<rparr>;
                 cumulative_data' = AList.update (name step) (PDict output) cumulative_data
             in execute_steps rest (Suc i) cumulative_data' room (lg @ [entry]) rt'
         | (Inl e, rt') \<Rightarrow>
             let entry = running\<lparr>log_state := FAILED, log_error := Some (str e)\<rparr>
             in (Inl e, (lg @ [entry]) @ [entry], rt'))"

record 'w Orchestrator =
  steps :: "'w OrchestratorStep list"
  execution_log :: "step_log list"

definition Orchestrator_init :: "'w OrchestratorStep list \<Rightarrow> py_exception + 'w Orchestrator" where
  "Orchestrator_init step_list =
     (if step_list = [] then Inl (ValueError ''Orchestrator must have at least one step'')
      else Inr \<lparr>steps = step_list, execution_log = []\<rparr>)"

definition execute :: "'w Orchestrator \<Rightarrow> pydict \<Rightarrow> nat \<Rightarrow> 'w runtime
    \<Rightarrow> (py_exception + pydict) \<times> 'w Orchestrator \<times> 'w runtime" where
  "execute orch initial_input room rt =
     (case execute_steps (steps orch) 0 initial_input room [] rt of
        (r, lg, rt') \<Rightarrow> (r, orch\<lparr>execution_log := lg\<rparr>, rt'))"

definition get_failed_steps :: "'w Orchestrator \<Rightarrow> string list" where
  "get_failed_steps orch = map step_name (filter (\<lambda>l. log_state l = FAILED) (execution_log orch))"

definition get_successful_steps :: "'w Orchestrator \<Rightarrow> string list" where
  "get_successful_steps orch = map step_name (filter (\<lambda>l. log_state l = SUCCESS) (execution_log orch))"

section \<open>The chunker (utils/chunking.py)\<close>

text \<open>
  A text is a list of characters, each a code point below 256. \<open>py_isspace\<close> is the
  whitespace of \<^verbatim>\<open>str.strip()\<close> among these code points.
\<close>

definition py_isspace :: "char \<Rightarrow> bool" where
  "py_isspace ch = (of_char ch \<in> {9::nat, 10, 11, 12, 13, 28, 29, 30, 31, 32, 133, 160})"

definition strip :: "string \<Rightarrow> string" where
  "strip s = rev (dropWhile py_isspace (rev (dropWhile py_isspace s)))"

text \<open>Python's \<^verbatim>\<open>xs[a:b]\<close>: negative bounds count from the end, and both are clipped.\<close>

definition py_slice :: "'a list \<Rightarrow> int \<Rightarrow> int \<Rightarrow> 'a list" where
  "py_slice xs a b =
     (let n = int (length xs);
          lo = (if a < 0 then max 0 (a + n) else min a n);
          hi = (if b < 0 then max 0 (b + n) else min b n)
      in take (nat (hi - lo)) (drop (nat lo) xs))"

text \<open>
  The tokenizer is the library \<^verbatim>\<open>tiktoken\<close>, which is no part of the repository: an
  encoding is any pair of functions, and \<^verbatim>\<open>tiktoken.get_encoding\<close> is a parameter that
  knows some encoding names.
\<close>

record encoding =
  encode :: "string \<Rightarrow> nat list"
  decode :: "nat list \<Rightarrow> string"

text \<open>
  The \<^verbatim>\<open>while\<close> loop of \<^verbatim>\<open>chunk_text\<close>. Nothing in the loop itself makes it end (a
  step size of zero would repeat the same window), so it is a partial function, \<open>None\<close>
  standing for a loop that runs forever.
\<close>

partial_function (option) chunk_loop :: "encoding \<Rightarrow> nat list \<Rightarrow> int \<Rightarrow> int \<Rightarrow> int \<Rightarrow> string list
    \<Rightarrow> string list option" where
  "chunk_loop enc tokens chunk_size step_size start_idx chunks =
     (if start_idx < int (length tokens) then
        (let end_idx = start_idx + chunk_size;
             chunk_tokens = py_slice tokens start_idx end_idx;
             chunks' = chunks @ [decode enc chunk_tokens];
             start_idx' = start_idx + step_size
         in if end_idx \<ge> int (length tokens) then Some chunks'
            else chunk_loop enc tokens chunk_size step_size start_idx' chunks')
      else Some chunks)"

definition chunk_text :: "(string \<Rightarrow> encoding option) \<Rightarrow> string \<Rightarrow> int \<Rightarrow> int \<Rightarrow> string
    \<Rightarrow> (py_exception + string list) option" where
  "chunk_text get_encoding text chunk_size chunk_overlap encoding_name =
     (if chunk_size \<le> 0 then Some (Inl (ValueError ''chunk_size must be greater than 0''))
      else if chunk_overlap < 0 then Some (Inl (ValueError ''chunk_overlap must be non-negative''))
      else if chunk_overlap \<ge> chunk_size then
        Some (Inl (ValueError ''chunk_overlap must be less than chunk_size''))
      else if strip text = [] then Some (Inr [])
      else case get_encoding encoding_name of
          None \<Rightarrow> Some (Inl (ValueError (''Invalid encoding name: '' @ encoding_name)))
        | Some enc \<Rightarrow>
            let tokens = encode enc text
            in if int (length tokens) \<le> chunk_size then Some (Inr [text])
               else let step_size = chunk_size - chunk_overlap
                    in map_option Inr (chunk_loop enc tokens chunk_size step_size 0 []))"

section \<open>The vector store (services/vectorstores/faiss_store.py)\<close>

text \<open>
  The store keeps the FAISS index and the list of metadata side by side. The index is the
  list of the vectors added so far, in insertion order, so that \<^verbatim>\<open>index.ntotal\<close> is its
  length. Numbers are real numbers, and numpy's conversion to 32-bit floating point, which
  the source applies to the vectors it stores, to the query and in computing the score, is
  the parameter \<open>float32\<close> (a rounding of real numbers; infinities and NaN are left out).
\<close>

record FAISSVectorStore =
  dimension :: int
  index :: "real list list"
  metadata :: "pydict list"

definition FAISSVectorStore_init :: "int \<Rightarrow> py_exception + FAISSVectorStore" where
  "FAISSVectorStore_init n_dim =
     (if n_dim \<le> 0 then Inl (ValueError ''Dimension must be a positive integer'')
      else Inr \<lparr>dimension = n_dim, index = [], metadata = []\<rparr>)"

text \<open>
  \<^verbatim>\<open>add_documents\<close>. The identifiers come from \<^verbatim>\<open>uuid4()\<close>, a source of randomness: the
  parameter \<open>uuid4\<close> gives the identifier drawn by the \<open>i\<close>-th call. The text of the error
  messages is shortened where the source formats numbers into it.
\<close>

definition add_documents :: "(real \<Rightarrow> real) \<Rightarrow> (nat \<Rightarrow> string) \<Rightarrow> FAISSVectorStore \<Rightarrow> real list list
    \<Rightarrow> pydict list \<Rightarrow> (py_exception + string list) \<times> FAISSVectorStore" where
  "add_documents float32 uuid4 store embeddings metadata_list =
     (if length embeddings \<noteq> length metadata_list then
        (Inl (ValueError ''Number of embeddings must match number of metadata entries''), store)
      else if length embeddings = 0 then
        (Inl (ValueError ''Cannot add empty list of documents''), store)
      else if \<exists>embedding \<in> set embeddings. int (length embedding) \<noteq> dimension store then
        (Inl (ValueError ''Embedding has the wrong dimension''), store)
      else
        let document_ids = map uuid4 [0..<length embeddings];
            enriched_metadata =
              map (\<lambda>(meta, doc_id). AList.update ''document_id'' (PStr doc_id) meta)
                  (zip metadata_list document_ids);
            embeddings_array = map (map float32) embeddings
        in (Inr document_ids,
            store\<lparr>index := index store @ embeddings_array,
                  metadata := metadata store @ enriched_metadata\<rparr>))"

text \<open>The squared Euclidean distance of two vectors of equal length.\<close>

definition l2_sqr :: "real list \<Rightarrow> real list \<Rightarrow> real" where
  "l2_sqr x y = (\<Sum>(a, b)\<leftarrow>zip x y. (a - b)\<^sup>2)"

text \<open>
  Modelled from the spec: \<^verbatim>\<open>faiss.IndexFlatL2.search\<close>, of the FAISS library, which is not
  under src/. As the specification has it: the exact squared Euclidean distance from the
  query to every stored vector, and the \<open>k\<close> records of smallest distance, ascending by
  distance; equal distances keep insertion order. When \<open>k\<close> exceeds the number of vectors
  the library fills up with the label \<open>-1\<close>.
\<close>

definition index_search :: "real list list \<Rightarrow> real list \<Rightarrow> nat \<Rightarrow> (real \<times> int) list" where
  "index_search vectors query k =
     (let ranked = sort_key (\<lambda>i. l2_sqr query (vectors ! i)) [0..<length vectors]
      in map (\<lambda>i. (l2_sqr query (vectors ! i), int i)) (take k ranked)
         @ replicate (k - length vectors) (340282346638528859811704183484516925440, - 1))"

text \<open>\<^verbatim>\<open>similarity_search\<close>: one result per hit, read off the metadata list by position.\<close>

record search_result =
  res_document_id :: pyval
  res_metadata :: pydict
  distance :: real
  score :: real

fun build_results :: "(real \<Rightarrow> real) \<Rightarrow> pydict list \<Rightarrow> (real \<times> int) list
    \<Rightarrow> py_exception + search_result list" where
  "build_results float32 metas [] = Inr []"
| "build_results float32 metas ((d, idx) # hits) =
     (if idx = - 1 then build_results float32 metas hits
      else if idx < - int (length metas) \<or> int (length metas) \<le> idx then
        Inl (IndexError ''list index out of range'')
      else
        let meta = metas ! nat (if idx < 0 then idx + int (length metas) else idx)
        in case map_of meta ''document_id'' of
             None \<Rightarrow> Inl (KeyError ''document_id'')
           | Some doc_id \<Rightarrow>
               (case build_results float32 metas hits of
                  Inl e \<Rightarrow> Inl e
                | Inr results \<Rightarrow>
                    Inr (\<lparr>res_document_id = doc_id, res_metadata = meta, distance = d,
                          score = float32 (1 / float32 (1 + d))\<rparr> # results)))"

definition similarity_search :: "(real \<Rightarrow> real) \<Rightarrow> FAISSVectorStore \<Rightarrow> real list \<Rightarrow> int
    \<Rightarrow> py_exception + search_result list" where
  "similarity_search float32 store query_embedding k =
     (if length (index store) = 0 then Inl (ValueError ''Cannot search empty index'')
      else if k \<le> 0 then Inl (ValueError ''k must be a positive integer'')
      else if int (length query_embedding) \<noteq> dimension store then
        Inl (ValueError ''Query embedding has the wrong dimension'')
      else
        let k' = min k (int (length (index store)));
            query_array = map float32 query_embedding
        in build_results float32 (metadata store) (index_search (index store) query_array (nat k')))"

definition get_document_count :: "FAISSVectorStore \<Rightarrow> nat" where
  "get_document_count store = length (index store)"

definition is_empty :: "FAISSVectorStore \<Rightarrow> bool" where
  "is_empty store = (length (index store) = 0)"

section \<open>Embedding, ingestion and retrieval\<close>

text \<open>
  \<^verbatim>\<open>EmbeddingService.generate_embeddings\<close> (services/embeddings/embedding_service.py); the
  remote embedding call is the parameter \<open>client\<close>.
\<close>

definition generate_embeddings :: "(pyval list \<Rightarrow> py_exception + real list list) \<Rightarrow> pyval list
    \<Rightarrow> py_exception + real list list" where
  "generate_embeddings client texts =
     (if texts = [] then Inl (ValueError ''Cannot generate embeddings for empty text list'')
      else case client texts of
             Inl e \<Rightarrow> Inl (Exception (''Error generating embeddings: '' @ str e))
           | Inr embeddings \<Rightarrow> Inr embeddings)"

text \<open>
  \<^verbatim>\<open>IngestionPipeline.ingest_document\<close> (services/ingestion/ingestion_pipeline.py). Text
  extraction reads files and is the parameter \<open>extract_text\<close>; the result is \<open>None\<close> only
  if the chunker does not return. The fields \<^verbatim>\<open>chunk_size\<close> and \<^verbatim>\<open>chunk_overlap\<close> of the
  pipeline are \<open>pipeline_chunk_size\<close> and \<open>pipeline_chunk_overlap\<close> here.
\<close>

record IngestionPipeline =
  vector_store :: FAISSVectorStore
  pipeline_chunk_size :: int
  pipeline_chunk_overlap :: int

fun dict_update :: "pydict \<Rightarrow> pydict \<Rightarrow> pydict" where
  "dict_update d [] = d"
| "dict_update d ((k, v) # kvs) = dict_update (AList.update k v d) kvs"

definition ingest_document :: "(string \<Rightarrow> string \<Rightarrow> py_exception + string) \<Rightarrow> (string \<Rightarrow> encoding option)
    \<Rightarrow> (pyval list \<Rightarrow> py_exception + real list list) \<Rightarrow> (real \<Rightarrow> real) \<Rightarrow> (nat \<Rightarrow> string)
    \<Rightarrow> IngestionPipeline \<Rightarrow> string \<Rightarrow> string \<Rightarrow> string \<Rightarrow> pydict option
    \<Rightarrow> ((py_exception + pydict) \<times> IngestionPipeline) option" where
  "ingest_document extract_text get_encoding client float32 uuid4 pipeline document_id file_path content_type
       additional_metadata =
     (case extract_text file_path content_type of
        Inl e \<Rightarrow> Some (Inl e, pipeline)
      | Inr extracted_text \<Rightarrow>
          (case chunk_text get_encoding extracted_text (pipeline_chunk_size pipeline)
                  (pipeline_chunk_overlap pipeline)
                  ''cl100k_base'' of
             None \<Rightarrow> None
           | Some (Inl e) \<Rightarrow> Some (Inl e, pipeline)
           | Some (Inr text_chunks) \<Rightarrow>
               if length text_chunks = 0 then
                 Some (Inr [(''document_id'', PStr document_id), (''chunks_created'', PInt 0),
                            (''embeddings_generated'', PInt 0), (''chunks_stored'', PInt 0),
                            (''text_length'', PInt (int (length extracted_text)))], pipeline)
               else
                 (case generate_embeddings client (map PStr text_chunks) of
                    Inl e \<Rightarrow> Some (Inl e, pipeline)
                  | Inr embeddings \<Rightarrow>
                      let metadata_list =
                            map (\<lambda>(i, chunk_text_content).
                                   let chunk_metadata =
                                         [(''document_id'', PStr document_id),
                                          (''chunk_index'', PInt (int i)),
                                          (''text'', PStr chunk_text_content),
                                          (''content_type'', PStr content_type),
                                          (''file_path'', PStr file_path)]
                                   in case additional_metadata of
                                        None \<Rightarrow> chunk_metadata
                                      | Some extra \<Rightarrow> dict_update chunk_metadata extra)
                                (enumerate 0 text_chunks)
                      in case add_documents float32 uuid4 (vector_store pipeline) embeddings metadata_list of
                           (Inl e, store') \<Rightarrow> Some (Inl e, pipeline\<lparr>vector_store := store'\<rparr>)
                         | (Inr chunk_ids, store') \<Rightarrow>
                             Some (Inr [(''document_id'', PStr document_id),
                                        (''chunks_created'', PInt (int (length text_chunks))),
                                        (''embeddings_generated'', PInt (int (length embeddings))),
                                        (''chunks_stored'', PInt (int (length chunk_ids))),
                                        (''text_length'', PInt (int (length extracted_text)))],
                                   pipeline\<lparr>vector_store := store'\<rparr>))))"

text \<open>
  \<^verbatim>\<open>DocumentUnderstandingAgent._process\<close> (agents/document_understanding.py), with the
  completion call and the formatting of a value that is no string as parameters, and
  \<^verbatim>\<open>BaseAgent.execute\<close>, which passes the result or the exception of \<^verbatim>\<open>_process\<close> on.
  A \<open>k\<close> that is no integer gets past the test for the empty index and then fails the
  comparison \<^verbatim>\<open>k <= 0\<close>.
\<close>

fun string_of_nat :: "nat \<Rightarrow> string" where
  "string_of_nat n =
     (if n < 10 then [''0123456789'' ! n]
      else string_of_nat (n div 10) @ [''0123456789'' ! (n mod 10)])"

declare string_of_nat.simps [simp del]

fun join :: "string \<Rightarrow> string list \<Rightarrow> string" where
  "join sep [] = []"
| "join sep [x] = x"
| "join sep (x # y # ys) = x @ sep @ join sep (y # ys)"

definition default_query :: string where
  "default_query = ''What are the business goals, systems, data assets, and constraints mentioned in this document?''"

definition no_context_found :: pydict where
  "no_context_found =
     [(''content'', PStr ''No relevant context found in the uploaded documents to perform a business architecture assessment.''),
      (''warning'', PStr ''No relevant context found in vector store.'')]"

definition dict_get :: "pydict \<Rightarrow> string \<Rightarrow> pyval \<Rightarrow> pyval" where
  "dict_get d k dflt = (case map_of d k of None \<Rightarrow> dflt | Some v \<Rightarrow> v)"

definition DocumentUnderstandingAgent_process ::
    "(pyval list \<Rightarrow> py_exception + real list list) \<Rightarrow> (string \<Rightarrow> py_exception + string)
      \<Rightarrow> (pyval \<Rightarrow> string) \<Rightarrow> (real \<Rightarrow> real) \<Rightarrow> FAISSVectorStore \<Rightarrow> pydict
      \<Rightarrow> py_exception + pydict" where
  "DocumentUnderstandingAgent_process client call_llm format_value float32 store input_data =
     (let query = dict_get input_data ''query'' (PStr default_query);
          k = dict_get input_data ''k'' (PInt 5)
      in case generate_embeddings client [query] of
           Inl e \<Rightarrow> Inl e
         | Inr [] \<Rightarrow> Inl (IndexError ''list index out of range'')
         | Inr (query_embedding # _) \<Rightarrow>
             (case (case k of
                      PInt k_int \<Rightarrow> similarity_search float32 store query_embedding k_int
                    | _ \<Rightarrow> if length (index store) = 0 then Inl (ValueError ''Cannot search empty index'')
                           else Inl (TypeError ''k is not a number'')) of
                Inl e \<Rightarrow> Inl e
              | Inr results \<Rightarrow>
                  let context_parts =
                        map (\<lambda>(i, res).
                               ''--- Context Chunk '' @ string_of_nat (i + 1) @ '' ---'' @ [CHR 0x0A]
                               @ (case dict_get (res_metadata res) ''text'' (PStr '''') of
                                    PStr text \<Rightarrow> text
                                  | other \<Rightarrow> format_value other))
                            (enumerate 0 results);
                      context = join [CHR 0x0A, CHR 0x0A] context_parts
                  in if context = [] then Inr no_context_found
                     else let user_message =
                                ''DOCUMENT CONTEXT:'' @ [CHR 0x0A, CHR 0x0A] @ context @ [CHR 0x0A, CHR 0x0A]
                                @ ''Based on the above context, provide a comprehensive Current State Assessment for the Statement of Work.''
                          in case call_llm user_message of
                               Inl e \<Rightarrow> Inl e
                             | Inr response \<Rightarrow> Inr [(''content'', PStr response)]))"

definition BaseAgent_execute :: "(pydict \<Rightarrow> py_exception + pydict) \<Rightarrow> pydict \<Rightarrow> py_exception + pydict" where
  "BaseAgent_execute process input_data =
     (case process input_data of Inl e \<Rightarrow> Inl e | Inr output \<Rightarrow> Inr output)"

section \<open>Notions and instances used in the statements\<close>

definition agent_calls :: "string \<Rightarrow> event list \<Rightarrow> nat" where
  "agent_calls n evs = length (filter (\<lambda>ev. ev = AgentExecute n) evs)"

text \<open>
  The first \<open>n\<close> calls of an agent on the input \<open>d\<close>, one after the other from the world
  \<open>w\<close> on: \<open>attempts_fail\<close> says that each of them raises, and \<open>world_after\<close> is the world
  they leave behind. Nothing is said of what the agent would do on other inputs, in other
  worlds or on a later call.
\<close>

fun attempts_fail :: "'w agent \<Rightarrow> pydict \<Rightarrow> nat \<Rightarrow> 'w \<Rightarrow> bool" where
  "attempts_fail a d 0 w = True"
| "attempts_fail a d (Suc n) w =
     (case a d w of (Inl e, w') \<Rightarrow> attempts_fail a d n w' | (Inr out, w') \<Rightarrow> False)"

fun world_after :: "'w agent \<Rightarrow> pydict \<Rightarrow> nat \<Rightarrow> 'w \<Rightarrow> 'w" where
  "world_after a d 0 w = w"
| "world_after a d (Suc n) w = world_after a d n (snd (a d w))"

text \<open>The lengths that \<^verbatim>\<open>time.sleep\<close> accepts.\<close>

definition sleep_accepts :: "real \<Rightarrow> bool" where
  "sleep_accepts secs = (0 \<le> secs \<and> secs * 10 ^ 9 < 2 ^ 63)"

text \<open>
  The runtime after the first attempt of a step and \<open>k\<close> retries, all failed: the agent
  has been applied \<open>k + 1\<close> times to the world, and each retry was preceded by its sleep.
\<close>

definition after_attempts :: "'w OrchestratorStep \<Rightarrow> pydict \<Rightarrow> nat \<Rightarrow> 'w runtime \<Rightarrow> 'w runtime" where
  "after_attempts s d k rt =
     rt\<lparr>world := world_after (agent s) d (Suc k) (world rt),
        events := events rt @ AgentExecute (name s) #
                    concat (replicate k [Sleep (retry_delay s), AgentExecute (name s)])\<rparr>"

text \<open>
  Instances. \<open>counting_agent\<close> always raises and \<open>flaky_agent\<close> raises on its first two
  calls only; both count their calls in the world.
\<close>

definition rt0 :: "unit runtime" where
  "rt0 = \<lparr>world = (), events = []\<rparr>"

definition counting_agent :: "nat agent" where
  "counting_agent = (\<lambda>d w. (Inl (Exception ''boom''), Suc w))"

definition counted_A :: "nat OrchestratorStep" where
  "counted_A = \<lparr>name = ''A'', agent = counting_agent, retries = 2, retry_delay = 1,
                on_failure = None\<rparr>"

definition deep_A :: "nat OrchestratorStep" where
  "deep_A = \<lparr>name = ''A'', agent = counting_agent, retries = 5000, retry_delay = 0,
             on_failure = None\<rparr>"

definition failing_A :: "unit OrchestratorStep" where
  "failing_A = \<lparr>name = ''A'', agent = (\<lambda>d w. (Inl (Exception ''boom''), w)), retries = 0,
            retry_delay = 1, on_failure = None\<rparr>"

definition step_B :: "unit OrchestratorStep" where
  "step_B = \<lparr>name = ''B'', agent = (\<lambda>d w. (Inr [(''content'', PStr ''b'')], w)), retries = 0,
            retry_delay = 1, on_failure = None\<rparr>"


definition flaky_agent :: "nat agent" where
  "flaky_agent =
     (\<lambda>d w. (if w < 2 then Inl (Exception ''transient'') else Inr [(''content'', PStr ''a'')], Suc w))"

definition flaky_A :: "nat OrchestratorStep" where
  "flaky_A = \<lparr>name = ''A'', agent = flaky_agent, retries = 2, retry_delay = 1, on_failure = None\<rparr>"

definition status_failed :: "unit handler" where
  "status_failed = (\<lambda>d e w. (Inr [(''status'', PStr ''FAILED'')], w))"

definition handled_A :: "unit OrchestratorStep" where
  "handled_A = \<lparr>name = ''A'', agent = (\<lambda>d w. (Inl (Exception ''boom''), w)), retries = 1,
            retry_delay = 1, on_failure = Some status_failed\<rparr>"

definition reports_failed :: "nat handler" where
  "reports_failed = (\<lambda>d e w. (Inr [(''status'', PStr ''FAILED''), (''error'', PStr (str e))], w))"

definition recovered_A :: "nat OrchestratorStep" where
  "recovered_A = \<lparr>name = ''A'', agent = flaky_agent, retries = 1, retry_delay = 1,
                  on_failure = Some reports_failed\<rparr>"



text \<open>
  The windows of the specification: window \<open>j\<close> holds \<open>chunk_size\<close> tokens from
  position \<open>j * step_size\<close> on, and there are as many windows as it takes for the end of
  one to reach the token count.
\<close>

definition window_count :: "nat \<Rightarrow> int \<Rightarrow> int \<Rightarrow> nat" where
  "window_count n chunk_size step_size = Suc (nat ((int n - chunk_size + step_size - 1) div step_size))"

definition token_window :: "nat list \<Rightarrow> int \<Rightarrow> int \<Rightarrow> nat \<Rightarrow> nat list" where
  "token_window tokens chunk_size step_size j = take (nat chunk_size) (drop (j * nat step_size) tokens)"

definition byte_encoding :: encoding where
  "byte_encoding = \<lparr>encode = map of_char, decode = map char_of\<rparr>"

definition byte_encodings :: "string \<Rightarrow> encoding option" where
  "byte_encodings = (\<lambda>n. if n = ''cl100k_base'' then Some byte_encoding else None)"

definition lossy_encodings :: "string \<Rightarrow> encoding option" where
  "lossy_encodings = (\<lambda>n. Some \<lparr>encode = map of_char, decode = (\<lambda>ts. ''?'')\<rparr>)"

definition text_pipeline :: IngestionPipeline where
  "text_pipeline = \<lparr>vector_store = \<lparr>dimension = 3, index = [], metadata = []\<rparr>,
                    pipeline_chunk_size = 512, pipeline_chunk_overlap = 50\<rparr>"

section \<open>Retry and failure handling of a step\<close>

lemma world_after_Suc:
  "world_after a d (Suc n) w = snd (a d (world_after a d n w))"
  by (induction n arbitrary: w) simp_all

lemma attempts_fail_first:
  assumes "attempts_fail a d (Suc n) w"
  obtains e w' where "a d w = (Inl e, w')" and "attempts_fail a d n w'"
proof (cases "a d w")
  case (Pair r w')
  with assms obtain e where "r = Inl e" and "attempts_fail a d n w'"
    by (cases r) simp_all
  with Pair that show ?thesis by simp
qed

lemma time_sleep_accepted:
  "sleep_accepts secs \<Longrightarrow> time_sleep secs rt = (Inr (), rt\<lparr>events := events rt @ [Sleep secs]\<rparr>)"
proof -
  assume a: "sleep_accepts secs"
  then have "0 \<le> secs * 10 ^ 9" by (simp add: sleep_accepts_def)
  then have "\<not> secs * 10 ^ 9 < - (2 ^ 63)" by (smt (verit) zero_le_power)
  with a show ?thesis by (simp add: time_sleep_def sleep_accepts_def)
qed

lemma execute_step_exhausted:
  assumes delay: "sleep_accepts (retry_delay s)"
  shows "k = nat (retries s - attempt) \<Longrightarrow> k < room \<Longrightarrow>
     attempts_fail (agent s) d (Suc k) (world rt) \<Longrightarrow>
     \<exists>e. agent s d (world_after (agent s) d k (world rt)) =
            (Inl e, world_after (agent s) d (Suc k) (world rt))
        \<and> execute_step s d attempt room rt =
            (case on_failure s of
               Some h \<Rightarrow> call_handler s h d e (after_attempts s d k rt)
             | None \<Rightarrow> (Inl e, after_attempts s d k rt))"
proof (induction k arbitrary: attempt room rt)
  case 0
  then have stop: "\<not> attempt < retries s" by simp
  from \<open>0 < room\<close> obtain room' where room: "room = Suc room'" by (cases room) simp_all
  from "0.prems"(3) obtain e w' where a: "agent s d (world rt) = (Inl e, w')"
    by (rule attempts_fail_first)
  have c: "call_agent s d rt = (Inl e, after_attempts s d 0 rt)"
    using a by (simp add: call_agent_def after_attempts_def)
  have "execute_step s d attempt room rt =
            (case on_failure s of
               Some h \<Rightarrow> call_handler s h d e (after_attempts s d 0 rt)
             | None \<Rightarrow> (Inl e, after_attempts s d 0 rt))"
    using stop c unfolding room by simp
  moreover have "agent s d (world_after (agent s) d 0 (world rt)) =
            (Inl e, world_after (agent s) d (Suc 0) (world rt))"
    using a by simp
  ultimately show ?case by blast
next
  case (Suc k)
  then have again: "attempt < retries s" by simp
  from \<open>Suc k < room\<close> obtain room' where room: "room = Suc room'" and k: "k < room'"
    by (cases room) simp_all
  from Suc.prems(3) obtain e0 w' where a: "agent s d (world rt) = (Inl e0, w')"
    and rest: "attempts_fail (agent s) d (Suc k) w'"
    by (rule attempts_fail_first)
  let ?rt1 = "rt\<lparr>world := w', events := events rt @ [AgentExecute (name s)]\<rparr>"
  let ?rt2 = "?rt1\<lparr>events := events ?rt1 @ [Sleep (retry_delay s)]\<rparr>"
  have c: "call_agent s d rt = (Inl e0, ?rt1)"
    using a by (simp add: call_agent_def)
  have sl: "time_sleep (retry_delay s) ?rt1 = (Inr (), ?rt2)"
    by (rule time_sleep_accepted[OF delay])
  have step: "execute_step s d attempt room rt = execute_step s d (attempt + 1) room' ?rt2"
    using again c sl unfolding room by simp
  have k': "k = nat (retries s - (attempt + 1))" using Suc.prems(1) by simp
  have rest': "attempts_fail (agent s) d (Suc k) (world ?rt2)" using rest by simp
  from Suc.IH[OF k' k rest'] obtain e where
    ag: "agent s d (world_after (agent s) d k (world ?rt2)) =
            (Inl e, world_after (agent s) d (Suc k) (world ?rt2))"
    and ex: "execute_step s d (attempt + 1) room' ?rt2 =
            (case on_failure s of
               Some h \<Rightarrow> call_handler s h d e (after_attempts s d k ?rt2)
             | None \<Rightarrow> (Inl e, after_attempts s d k ?rt2))"
    by blast
  have same: "after_attempts s d k ?rt2 = after_attempts s d (Suc k) rt"
    using a by (simp add: after_attempts_def)
  have ag': "agent s d (world_after (agent s) d (Suc k) (world rt)) =
            (Inl e, world_after (agent s) d (Suc (Suc k)) (world rt))"
    using ag a by simp
  have ex': "execute_step s d attempt room rt =
            (case on_failure s of
               Some h \<Rightarrow> call_handler s h d e (after_attempts s d (Suc k) rt)
             | None \<Rightarrow> (Inl e, after_attempts s d (Suc k) rt))"
    unfolding step ex same ..
  from ag' ex' show ?case by blast
qed

lemma execute_step_out_of_room:
  assumes delay: "sleep_accepts (retry_delay s)"
  shows "room \<le> nat (retries s - attempt) \<Longrightarrow> attempts_fail (agent s) d room (world rt) \<Longrightarrow>
     execute_step s d attempt room rt =
       (Inl (RecursionError ''maximum recursion depth exceeded''),
        rt\<lparr>world := world_after (agent s) d room (world rt),
           events := events rt @
             concat (replicate room [AgentExecute (name s), Sleep (retry_delay s)])\<rparr>)"
proof (induction room arbitrary: attempt rt)
  case 0
  then show ?case by simp
next
  case (Suc room)
  then have again: "attempt < retries s" by simp
  from Suc.prems(2) obtain e0 w' where a: "agent s d (world rt) = (Inl e0, w')"
    and rest: "attempts_fail (agent s) d room w'"
    by (rule attempts_fail_first)
  let ?rt1 = "rt\<lparr>world := w', events := events rt @ [AgentExecute (name s)]\<rparr>"
  let ?rt2 = "?rt1\<lparr>events := events ?rt1 @ [Sleep (retry_delay s)]\<rparr>"
  have c: "call_agent s d rt = (Inl e0, ?rt1)"
    using a by (simp add: call_agent_def)
  have sl: "time_sleep (retry_delay s) ?rt1 = (Inr (), ?rt2)"
    by (rule time_sleep_accepted[OF delay])
  have step: "execute_step s d attempt (Suc room) rt = execute_step s d (attempt + 1) room ?rt2"
    using again c sl by simp
  have le: "room \<le> nat (retries s - (attempt + 1))" using Suc.prems(1) by simp
  have rest': "attempts_fail (agent s) d room (world ?rt2)" using rest by simp
  show ?case
    unfolding step Suc.IH[OF le rest'] using a by simp
qed

lemma agent_calls_retries:
  "agent_calls n (evs @ AgentExecute n # concat (replicate k [Sleep x, AgentExecute n])) =
     agent_calls n evs + k + 1"
  by (induction k) (simp_all add: agent_calls_def)

lemma agent_calls_sleeps:
  "agent_calls n (evs @ concat (replicate k [AgentExecute n, Sleep x])) = agent_calls n evs + k"
  by (induction k) (simp_all add: agent_calls_def)

lemma counting_agent_fails: "attempts_fail counting_agent d n w"
  by (induction n arbitrary: w) (simp_all add: counting_agent_def)

lemma counting_agent_world: "world_after counting_agent d n w = w + n"
  by (induction n arbitrary: w) (simp_all add: counting_agent_def)

text \<open>
  Claim C1, as stated, fails for large retry budgets. A step with \<open>retries = 5000\<close>, no
  delay and an agent that always raises, run with room for 1000 nested calls, which is more
  than the interpreter's default limit of 1000 ever leaves: the agent is called 1000 times,
  not 5001 times, and the step ends in \<^verbatim>\<open>RecursionError\<close>.
\<close>

theorem retry_count_law_counterexample:
  "fst (execute_step deep_A [] 0 1000 \<lparr>world = 0, events = []\<rparr>) =
     Inl (RecursionError ''maximum recursion depth exceeded'')
   \<and> world (snd (execute_step deep_A [] 0 1000 \<lparr>world = 0, events = []\<rparr>)) = 1000
   \<and> agent_calls ''A'' (events (snd (execute_step deep_A [] 0 1000 \<lparr>world = 0, events = []\<rparr>))) = 1000
   \<and> retries deep_A + 1 = 5001"
proof -
  have d: "sleep_accepts (retry_delay deep_A)" by (simp add: deep_A_def sleep_accepts_def)
  have r: "(1000::nat) \<le> nat (retries deep_A - 0)" by (simp add: deep_A_def)
  have f: "attempts_fail (agent deep_A) [] 1000 (world \<lparr>world = 0::nat, events = []\<rparr>)"
    by (simp add: deep_A_def counting_agent_fails)
  have "execute_step deep_A [] 0 1000 \<lparr>world = 0, events = []\<rparr> =
       (Inl (RecursionError ''maximum recursion depth exceeded''),
        \<lparr>world = 0, events = []\<rparr>\<lparr>world := world_after (agent deep_A) [] 1000 (world \<lparr>world = 0::nat, events = []\<rparr>),
           events := events \<lparr>world = 0::nat, events = []\<rparr> @
             concat (replicate 1000 [AgentExecute (name deep_A), Sleep (retry_delay deep_A)])\<rparr>)"
    by (rule execute_step_out_of_room[OF d r f])
  moreover have "agent_calls ''A'' ([] @ concat (replicate 1000 [AgentExecute ''A'', Sleep 0])) = 0 + 1000"
    unfolding agent_calls_sleeps by (simp add: agent_calls_def)
  ultimately show ?thesis
    by (simp add: deep_A_def counting_agent_world)
qed

text \<open>
  Claim C1, amended (retry count law). A step with retry budget \<open>retries = R \<ge> 0\<close>, a
  \<open>retry_delay\<close> that \<^verbatim>\<open>time.sleep\<close> accepts and room for its \<open>R + 1\<close> nested calls, whose
  agent raises on each of its first \<open>R + 1\<close> calls: \<^verbatim>\<open>_execute_step\<close> applies the agent
  exactly \<open>R + 1\<close> times, each time to the world the call before left, with a sleep of
  \<open>retry_delay\<close> before each of the \<open>R\<close> retries, and only then reaches the failure
  outcome: the handler, called with the exception of the last attempt, or that exception
  itself when there is no handler.
\<close>

theorem retry_count_law:
  assumes "0 \<le> retries s" and "nat (retries s) < room" and "sleep_accepts (retry_delay s)"
    and "attempts_fail (agent s) d (Suc (nat (retries s))) (world rt)"
  shows "\<exists>e. agent s d (world_after (agent s) d (nat (retries s)) (world rt)) =
               (Inl e, world_after (agent s) d (Suc (nat (retries s))) (world rt))
       \<and> execute_step s d 0 room rt =
           (case on_failure s of
              None \<Rightarrow> (Inl e, after_attempts s d (nat (retries s)) rt)
            | Some h \<Rightarrow> call_handler s h d e (after_attempts s d (nat (retries s)) rt))
       \<and> world (after_attempts s d (nat (retries s)) rt) =
           world_after (agent s) d (nat (retries s) + 1) (world rt)
       \<and> events (after_attempts s d (nat (retries s)) rt) =
           events rt @ AgentExecute (name s) #
             concat (replicate (nat (retries s)) [Sleep (retry_delay s), AgentExecute (name s)])
       \<and> agent_calls (name s) (events (after_attempts s d (nat (retries s)) rt)) =
           agent_calls (name s) (events rt) + nat (retries s) + 1"
proof -
  from execute_step_exhausted[OF assms(3) _ assms(2) assms(4), of 0] obtain e where
    ag: "agent s d (world_after (agent s) d (nat (retries s)) (world rt)) =
               (Inl e, world_after (agent s) d (Suc (nat (retries s))) (world rt))"
    and ex: "execute_step s d 0 room rt =
            (case on_failure s of
               Some h \<Rightarrow> call_handler s h d e (after_attempts s d (nat (retries s)) rt)
             | None \<Rightarrow> (Inl e, after_attempts s d (nat (retries s)) rt))"
    by auto
  have ex': "execute_step s d 0 room rt =
           (case on_failure s of
              None \<Rightarrow> (Inl e, after_attempts s d (nat (retries s)) rt)
            | Some h \<Rightarrow> call_handler s h d e (after_attempts s d (nat (retries s)) rt))"
    using ex by (cases "on_failure s") simp_all
  have w: "world (after_attempts s d (nat (retries s)) rt) =
           world_after (agent s) d (nat (retries s) + 1) (world rt)"
    by (simp add: after_attempts_def)
  have ev: "events (after_attempts s d (nat (retries s)) rt) =
           events rt @ AgentExecute (name s) #
             concat (replicate (nat (retries s)) [Sleep (retry_delay s), AgentExecute (name s)])"
    by (simp add: after_attempts_def)
  have calls: "agent_calls (name s) (events (after_attempts s d (nat (retries s)) rt)) =
           agent_calls (name s) (events rt) + nat (retries s) + 1"
    unfolding ev by (rule agent_calls_retries)
  from ag ex' w ev calls show ?thesis by blast
qed

theorem retry_count_law_witness:
  "0 \<le> retries counted_A \<and> nat (retries counted_A) < 900 \<and> sleep_accepts (retry_delay counted_A)
   \<and> attempts_fail (agent counted_A) [] (Suc (nat (retries counted_A))) (world \<lparr>world = 0::nat, events = []\<rparr>)
   \<and> execute_step counted_A [] 0 900 \<lparr>world = 0, events = []\<rparr> =
       (Inl (Exception ''boom''),
        \<lparr>world = 3,
         events = [AgentExecute ''A'', Sleep 1, AgentExecute ''A'', Sleep 1, AgentExecute ''A'']\<rparr>)"
proof -
  have h1: "0 \<le> retries counted_A" by (simp add: counted_A_def)
  have h2: "nat (retries counted_A) < 900" by (simp add: counted_A_def)
  have h3: "sleep_accepts (retry_delay counted_A)" by (simp add: counted_A_def sleep_accepts_def)
  have h4: "attempts_fail (agent counted_A) [] (Suc (nat (retries counted_A))) (world \<lparr>world = 0::nat, events = []\<rparr>)"
    by (simp add: counted_A_def counting_agent_fails)
  from retry_count_law[OF h1 h2 h3 h4] obtain e where
    ag: "agent counted_A [] (world_after (agent counted_A) [] (nat (retries counted_A)) (world \<lparr>world = 0::nat, events = []\<rparr>)) =
               (Inl e, world_after (agent counted_A) [] (Suc (nat (retries counted_A))) (world \<lparr>world = 0::nat, events = []\<rparr>))"
    and ex: "execute_step counted_A [] 0 900 \<lparr>world = 0, events = []\<rparr> =
           (case on_failure counted_A of
              None \<Rightarrow> (Inl e, after_attempts counted_A [] (nat (retries counted_A)) \<lparr>world = 0, events = []\<rparr>)
            | Some h \<Rightarrow> call_handler counted_A h [] e (after_attempts counted_A [] (nat (retries counted_A)) \<lparr>world = 0, events = []\<rparr>))"
    by blast
  from ag have e: "e = Exception ''boom''" by (simp add: counted_A_def counting_agent_def)
  have "execute_step counted_A [] 0 900 \<lparr>world = 0, events = []\<rparr> =
       (Inl (Exception ''boom''),
        \<lparr>world = 3,
         events = [AgentExecute ''A'', Sleep 1, AgentExecute ''A'', Sleep 1, AgentExecute ''A'']\<rparr>)"
    unfolding ex e
    by (simp add: counted_A_def after_attempts_def counting_agent_def eval_nat_numeral)
  with h1 h2 h3 h4 show ?thesis by simp
qed


lemma execute_steps_log_prefix:
  "\<exists>suffix. fst (snd (execute_steps xs i c room lg rt)) = lg @ suffix"
proof (induction xs arbitrary: i c lg rt)
  case Nil
  then show ?case by simp
next
  case (Cons s xs)
  show ?case
  proof (cases "execute_step s c 0 room rt")
    case (Pair r rt')
    show ?thesis
    proof (cases r)
      case (Inl e)
      with Pair show ?thesis by (simp add: Let_def)
    next
      case (Inr out)
      let ?entry = "\<lparr>step_name = name s, step_index = i, log_state = SUCCESS,
                     log_input = c, log_output = Some out, log_error = None, attempts = 0\<rparr>"
      from Cons.IH[of "Suc i" "AList.update (name s) (PDict out) c" "lg @ [?entry]" rt']
      obtain suffix where "fst (snd (execute_steps xs (Suc i) (AList.update (name s) (PDict out) c) room (lg @ [?entry]) rt')) = (lg @ [?entry]) @ suffix"
        by blast
      with Pair Inr show ?thesis by (simp add: Let_def)
    qed
  qed
qed

lemma execute_steps_result_log:
  "fst (execute_steps xs i c room lg rt) = fst (execute_steps xs i c room lg2 rt)"
proof (induction xs arbitrary: i c lg lg2 rt)
  case Nil
  then show ?case by simp
next
  case (Cons s xs)
  show ?case
  proof (cases "execute_step s c 0 room rt")
    case (Pair r rt')
    then show ?thesis using Cons.IH by (cases r) (simp_all add: Let_def)
  qed
qed

lemma execute_step_numeral:
  "execute_step step input_data attempt (numeral n) rt =
     (case call_agent step input_data rt of
        (Inr output, rt1) \<Rightarrow> (Inr output, rt1)
      | (Inl e, rt1) \<Rightarrow>
          if attempt < retries step then
            (case time_sleep (retry_delay step) rt1 of
               (Inl sleep_error, rt2) \<Rightarrow> (Inl sleep_error, rt2)
             | (Inr _, rt2) \<Rightarrow> execute_step step input_data (attempt + 1) (pred_numeral n) rt2)
          else
            (case on_failure step of
               Some h \<Rightarrow> call_handler step h input_data e rt1
             | None \<Rightarrow> (Inl e, rt1)))"
  by (simp only: numeral_eq_Suc execute_step.simps)

section \<open>The execution log\<close>

text \<open>
  Claim C2. Steps \<open>[A, B]\<close> where \<open>A\<close> has no retries, no handler and an agent that
  always raises: \<^verbatim>\<open>execute({})\<close> raises and \<open>B\<close> is never run, but the log holds the
  \<open>FAILED\<close> entry of \<open>A\<close> twice, once from the \<^verbatim>\<open>except\<close> block and once from the
  \<^verbatim>\<open>finally\<close> block, not exactly once.
\<close>

theorem failed_step_logged_twice:
  "execute \<lparr>steps = [failing_A, step_B], execution_log = []\<rparr> [] 900 rt0 =
     (Inl (Exception ''boom''),
      \<lparr>steps = [failing_A, step_B],
       execution_log =
         [\<lparr>step_name = ''A'', step_index = 0, log_state = FAILED, log_input = [],
           log_output = None, log_error = Some ''boom'', attempts = 0\<rparr>,
          \<lparr>step_name = ''A'', step_index = 0, log_state = FAILED, log_input = [],
           log_output = None, log_error = Some ''boom'', attempts = 0\<rparr>]\<rparr>,
      \<lparr>world = (), events = [AgentExecute ''A'']\<rparr>)"
  by (simp add: execute_step_numeral execute_def call_agent_def failing_A_def rt0_def Let_def)

text \<open>
  Claim C3. A step whose agent fails twice and then succeeds, with two retries: the agent
  is called three times, and the \<open>attempts\<close> field of its log entry is still the
  \<open>0\<close> it was initialised with, since \<^verbatim>\<open>execute\<close> never writes the field again.
\<close>

theorem attempts_never_counted:
  "agent_calls ''A'' (events (snd (snd (execute \<lparr>steps = [flaky_A], execution_log = []\<rparr> [] 900 \<lparr>world = 0, events = []\<rparr>)))) = 3
   \<and> world (snd (snd (execute \<lparr>steps = [flaky_A], execution_log = []\<rparr> [] 900 \<lparr>world = 0, events = []\<rparr>))) = 3
   \<and> map attempts (execution_log (fst (snd (execute \<lparr>steps = [flaky_A], execution_log = []\<rparr> [] 900 \<lparr>world = 0, events = []\<rparr>)))) = [0]
   \<and> map log_state (execution_log (fst (snd (execute \<lparr>steps = [flaky_A], execution_log = []\<rparr> [] 900 \<lparr>world = 0, events = []\<rparr>)))) = [SUCCESS]"
  by (simp add: execute_step_numeral execute_def call_agent_def time_sleep_def flaky_A_def flaky_agent_def Let_def agent_calls_def)

text \<open>
  Claim C4, as stated, fails. A step whose agent always raises and whose handler returns
  \<^verbatim>\<open>{"status": "FAILED"}\<close>: the run returns with that map under the step's name, and the
  step's log entry is in state \<open>SUCCESS\<close>, not \<open>FAILED\<close>.
\<close>

theorem handled_failure_logged_failed_counterexample:
  "fst (execute \<lparr>steps = [handled_A], execution_log = []\<rparr> [] 900 rt0) = Inr [(''A'', PDict [(''status'', PStr ''FAILED'')])]
   \<and> map log_state (execution_log (fst (snd (execute \<lparr>steps = [handled_A], execution_log = []\<rparr> [] 900 rt0)))) = [SUCCESS]
   \<and> get_failed_steps (fst (snd (execute \<lparr>steps = [handled_A], execution_log = []\<rparr> [] 900 rt0))) = []"
  by (simp add: execute_step_numeral execute_def call_agent_def call_handler_def time_sleep_def
       handled_A_def status_failed_def rt0_def Let_def get_failed_steps_def)

text \<open>
  Claim C4, amended. When each of the \<open>retries + 1\<close> attempts of a step raises, so that the
  step exhausts its retries, and its \<open>on_failure\<close> handler, called with the step's input
  and the exception of the last attempt, returns normally: \<^verbatim>\<open>_execute_step\<close> returns the
  handler's value, the step's log entry records state \<open>SUCCESS\<close> with that value as output
  and no error, and the run goes on with the value stored under the step's name.
\<close>

theorem handled_failure_logged_success:
  assumes "on_failure s = Some h"
    and "nat (retries s) < room" and "sleep_accepts (retry_delay s)"
    and "attempts_fail (agent s) c (Suc (nat (retries s))) (world rt)"
    and "agent s c (world_after (agent s) c (nat (retries s)) (world rt)) = (Inl e, w1)"
    and "h c e w1 = (Inr out, w2)"
  shows "fst (execute_step s c 0 room rt) = Inr out
       \<and> world (snd (execute_step s c 0 room rt)) = w2
       \<and> step_name (fst (snd (execute_steps (s # rest) i c room lg rt)) ! length lg) = name s
       \<and> log_state (fst (snd (execute_steps (s # rest) i c room lg rt)) ! length lg) = SUCCESS
       \<and> log_output (fst (snd (execute_steps (s # rest) i c room lg rt)) ! length lg) = Some out
       \<and> log_error (fst (snd (execute_steps (s # rest) i c room lg rt)) ! length lg) = None
       \<and> fst (execute_steps (s # rest) i c room lg rt) =
           fst (execute_steps rest (Suc i) (AList.update (name s) (PDict out) c) room lg
                 (snd (execute_step s c 0 room rt)))"
proof -
  let ?rt1 = "after_attempts s c (nat (retries s)) rt"
  from execute_step_exhausted[OF assms(3) _ assms(2) assms(4), of 0] obtain e' where
    ag: "agent s c (world_after (agent s) c (nat (retries s)) (world rt)) =
               (Inl e', world_after (agent s) c (Suc (nat (retries s))) (world rt))"
    and ex: "execute_step s c 0 room rt = call_handler s h c e' ?rt1"
    using assms(1) by auto
  from ag assms(5) have e: "e' = e" and w1: "world ?rt1 = w1"
    by (simp_all add: after_attempts_def)
  let ?rt2 = "?rt1\<lparr>world := w2, events := events ?rt1 @ [FailureHandler (name s)]\<rparr>"
  have step: "execute_step s c 0 room rt = (Inr out, ?rt2)"
    unfolding ex e using assms(6) w1 by (simp add: call_handler_def)
  let ?entry = "\<lparr>step_name = name s, step_index = i, log_state = SUCCESS,
                 log_input = c, log_output = Some out, log_error = None, attempts = 0\<rparr>"
  let ?c' = "AList.update (name s) (PDict out) c"
  have run: "execute_steps (s # rest) i c room lg rt = execute_steps rest (Suc i) ?c' room (lg @ [?entry]) ?rt2"
    using step by (simp add: Let_def)
  obtain suffix where "fst (snd (execute_steps rest (Suc i) ?c' room (lg @ [?entry]) ?rt2)) = (lg @ [?entry]) @ suffix"
    using execute_steps_log_prefix by blast
  then have nth: "fst (snd (execute_steps (s # rest) i c room lg rt)) ! length lg = ?entry"
    using run by simp
  have res: "fst (execute_steps rest (Suc i) ?c' room (lg @ [?entry]) ?rt2) =
             fst (execute_steps rest (Suc i) ?c' room lg ?rt2)"
    by (rule execute_steps_result_log)
  have a: "fst (execute_step s c 0 room rt) = Inr out" using step by simp
  have b: "world (snd (execute_step s c 0 room rt)) = w2" using step by simp
  have g: "fst (execute_steps (s # rest) i c room lg rt) =
           fst (execute_steps rest (Suc i) ?c' room lg (snd (execute_step s c 0 room rt)))"
    using run res step by simp
  show ?thesis unfolding nth using a b g by (simp del: execute_steps.simps)
qed

theorem handled_failure_logged_success_witness:
  "on_failure recovered_A = Some reports_failed
   \<and> nat (retries recovered_A) < 900 \<and> sleep_accepts (retry_delay recovered_A)
   \<and> attempts_fail (agent recovered_A) [] (Suc (nat (retries recovered_A))) (world \<lparr>world = 0::nat, events = []\<rparr>)
   \<and> agent recovered_A [] (world_after (agent recovered_A) [] (nat (retries recovered_A)) (world \<lparr>world = 0::nat, events = []\<rparr>))
        = (Inl (Exception ''transient''), 2)
   \<and> reports_failed [] (Exception ''transient'') 2 =
        (Inr [(''status'', PStr ''FAILED''), (''error'', PStr ''transient'')], 2)
   \<and> \<not> attempts_fail (agent recovered_A) [] 3 0
   \<and> log_state (fst (snd (execute_steps [recovered_A] 0 [] 900 [] \<lparr>world = 0, events = []\<rparr>)) ! 0) = SUCCESS
   \<and> log_output (fst (snd (execute_steps [recovered_A] 0 [] 900 [] \<lparr>world = 0, events = []\<rparr>)) ! 0) =
        Some [(''status'', PStr ''FAILED''), (''error'', PStr ''transient'')]
   \<and> log_error (fst (snd (execute_steps [recovered_A] 0 [] 900 [] \<lparr>world = 0, events = []\<rparr>)) ! 0) = None"
proof -
  have h1: "on_failure recovered_A = Some reports_failed" by (simp add: recovered_A_def)
  have h2: "nat (retries recovered_A) < 900" by (simp add: recovered_A_def)
  have h3: "sleep_accepts (retry_delay recovered_A)" by (simp add: recovered_A_def sleep_accepts_def)
  have h4: "attempts_fail (agent recovered_A) [] (Suc (nat (retries recovered_A))) (world \<lparr>world = 0::nat, events = []\<rparr>)"
    by (simp add: recovered_A_def flaky_agent_def eval_nat_numeral)
  have h5: "agent recovered_A [] (world_after (agent recovered_A) [] (nat (retries recovered_A)) (world \<lparr>world = 0::nat, events = []\<rparr>))
        = (Inl (Exception ''transient''), 2)"
    by (simp add: recovered_A_def flaky_agent_def eval_nat_numeral)
  have h6: "reports_failed [] (Exception ''transient'') 2 =
        (Inr [(''status'', PStr ''FAILED''), (''error'', PStr ''transient'')], 2)"
    by (simp add: reports_failed_def)
  have n: "\<not> attempts_fail (agent recovered_A) [] 3 0"
    by (simp add: recovered_A_def flaky_agent_def eval_nat_numeral)
  from handled_failure_logged_success[OF h1 h2 h3 h4 h5 h6, of "[]" 0 "[]"]
  show ?thesis using h1 h2 h3 h4 h5 h6 n by simp
qed



section \<open>The chunker\<close>

lemma py_slice_take_drop:
  "0 \<le> a \<Longrightarrow> a \<le> int (length xs) \<Longrightarrow> a \<le> b \<Longrightarrow>
     py_slice xs a b = take (nat (b - a)) (drop (nat a) xs)"
  by (auto simp: py_slice_def Let_def min_def)

lemma chunk_loop_windows:
  assumes cs: "0 < cs" and st: "0 < st" and le: "st \<le> cs"
  shows "k = nat ((int (length tokens) - start - cs + st - 1) div st) \<Longrightarrow>
     0 \<le> start \<Longrightarrow> start < int (length tokens) \<Longrightarrow>
     chunk_loop enc tokens cs st start acc =
       Some (acc @ map (\<lambda>j. decode enc (py_slice tokens (start + int j * st) (start + int j * st + cs)))
                    [0..<Suc k])"
proof (induction k arbitrary: start acc)
  case 0
  then have "\<not> 0 < (int (length tokens) - start - cs + st - 1) div st" by simp
  then have "int (length tokens) - start - cs + st - 1 < st"
    using st by (simp add: pos_imp_zdiv_pos_iff)
  then have stop: "int (length tokens) \<le> start + cs" by simp
  show ?case
    apply (subst chunk_loop.simps)
    using 0 stop by (simp add: Let_def)
next
  case (Suc k)
  then have "0 < (int (length tokens) - start - cs + st - 1) div st" by simp
  then have ge: "st \<le> int (length tokens) - start - cs + st - 1"
    using st by (simp add: pos_imp_zdiv_pos_iff)
  then have go: "\<not> int (length tokens) \<le> start + cs" by simp
  have "(int (length tokens) - start - cs + st - 1) div st =
          (int (length tokens) - (start + st) - cs + st - 1) div st + 1"
    using st div_add_self2[of st "int (length tokens) - (start + st) - cs + st - 1"] by (simp add: algebra_simps)
  then have k: "k = nat ((int (length tokens) - (start + st) - cs + st - 1) div st)"
    using Suc.prems(1) by simp
  have s0: "0 \<le> start + st" using Suc.prems st by simp
  have s1: "start + st < int (length tokens)" using ge le by simp
  have ih: "chunk_loop enc tokens cs st (start + st) (acc @ [decode enc (py_slice tokens start (start + cs))]) =
       Some ((acc @ [decode enc (py_slice tokens start (start + cs))]) @
          map (\<lambda>j. decode enc (py_slice tokens (start + st + int j * st) (start + st + int j * st + cs)))
                    [0..<Suc k])"
    by (rule Suc.IH[OF k s0 s1])
  have shift: "map (\<lambda>j. decode enc (py_slice tokens (start + int j * st) (start + int j * st + cs))) [0..<Suc (Suc k)] =
     decode enc (py_slice tokens start (start + cs)) #
     map (\<lambda>j. decode enc (py_slice tokens (start + st + int j * st) (start + st + int j * st + cs))) [0..<Suc k]"
    (is "map ?f _ = _ # map ?g _")
  proof -
    have "map ?f [0..<Suc (Suc k)] = ?f 0 # map (\<lambda>i. ?f (Suc i)) [0..<Suc k]"
      by (rule map_upt_Suc)
    moreover have "(\<lambda>i. ?f (Suc i)) = ?g" by (rule ext) (simp add: algebra_simps)
    moreover have "?f 0 = decode enc (py_slice tokens start (start + cs))" by simp
    ultimately show ?thesis by (simp only:)
  qed
  show ?case
    apply (subst chunk_loop.simps)
    using Suc.prems(3) go ih shift by (simp add: Let_def)
qed

lemma window_bounds:
  fixes n cs st :: int
  assumes st: "0 < st" and le: "st \<le> cs" and n: "cs < n"
  defines "q \<equiv> (n - cs + st - 1) div st"
  shows "0 \<le> q" and "int j \<le> q \<Longrightarrow> int j * st < n"
    and "int j < q \<Longrightarrow> int j * st + cs < n" and "n \<le> q * st + cs"
proof -
  let ?x = "n - cs + st - 1"
  have x0: "0 \<le> ?x" using st n by simp
  have eq: "st * q + ?x mod st = ?x" unfolding q_def by (rule mult_div_mod_eq)
  have r0: "0 \<le> ?x mod st" and r1: "?x mod st < st" using st by simp_all
  show q0: "0 \<le> q" unfolding q_def using x0 st by (simp add: pos_imp_zdiv_nonneg_iff)
  have lo: "st * q \<le> ?x" using eq r0 by linarith
  have hi: "?x < st * q + st" using eq r1 by linarith
  show "int j * st < n" if "int j \<le> q"
  proof -
    have "int j * st \<le> q * st" using that st by (simp add: mult_right_mono)
    then show ?thesis using lo le by (simp add: mult.commute)
  qed
  show "int j * st + cs < n" if "int j < q"
  proof -
    have "(int j + 1) * st \<le> q * st" using that st by (simp add: mult_right_mono)
    then have "int j * st + st \<le> st * q" by (simp add: algebra_simps)
    then show ?thesis using lo by linarith
  qed
  show "n \<le> q * st + cs" using hi by (simp add: mult.commute)
qed

lemma chunk_loop_token_windows:
  assumes st: "0 < st" and le: "st \<le> cs" and n: "cs < int (length tokens)"
  shows "chunk_loop enc tokens cs st 0 [] =
     Some (map (\<lambda>j. decode enc (token_window tokens cs st j)) [0..<window_count (length tokens) cs st])"
proof -
  let ?k = "nat ((int (length tokens) - cs + st - 1) div st)"
  have cs0: "0 < cs" using st le by simp
  have run: "chunk_loop enc tokens cs st 0 [] =
       Some ([] @ map (\<lambda>j. decode enc (py_slice tokens (0 + int j * st) (0 + int j * st + cs))) [0..<Suc ?k])"
    by (rule chunk_loop_windows[OF cs0 st le]) (use n cs0 in auto)
  have "decode enc (py_slice tokens (0 + int j * st) (0 + int j * st + cs)) =
        decode enc (token_window tokens cs st j)" if "j \<in> set [0..<Suc ?k]" for j
  proof -
    have "int j \<le> (int (length tokens) - cs + st - 1) div st"
      using that window_bounds(1)[OF st le n] by auto
    then have "int j * st < int (length tokens)" by (rule window_bounds(2)[OF st le n])
    moreover have "0 \<le> int j * st" using st by simp
    moreover have "nat (int j * st) = j * nat st" using st by (simp add: nat_mult_distrib)
    ultimately show ?thesis
      using cs0 by (simp add: py_slice_take_drop token_window_def)
  qed
  then have "map (\<lambda>j. decode enc (py_slice tokens (0 + int j * st) (0 + int j * st + cs))) [0..<Suc ?k] =
             map (\<lambda>j. decode enc (token_window tokens cs st j)) [0..<Suc ?k]"
    by (intro map_cong refl)
  with run show ?thesis by (simp only: window_count_def append_Nil)
qed

text \<open>
  Claim C9 (chunker windowing). Blank text and text of at most \<open>chunk_size\<close> tokens are
  dealt with before the windows are made. Otherwise, for valid parameters and a non-blank
  text with more than \<open>chunk_size\<close> tokens, \<^verbatim>\<open>chunk_text\<close> returns, and its
  chunks are the decoded windows of \<open>chunk_size\<close> tokens at the positions
  \<open>0, step, 2 * step, \<dots>\<close> with \<open>step = chunk_size - chunk_overlap\<close>. No window is
  empty, every window but the last ends before the token count, and the last one reaches or
  passes it. With 600 tokens, chunk size 512 and overlap 50 there are exactly two chunks,
  the decoded tokens \<open>[0:512]\<close> and \<open>[462:600]\<close>.
\<close>

theorem chunk_text_windowing:
  assumes "0 < chunk_size" and "0 \<le> chunk_overlap" and "chunk_overlap < chunk_size"
    and "strip text \<noteq> []" and "get_encoding encoding_name = Some enc"
    and "chunk_size < int (length (encode enc text))"
  shows "chunk_text get_encoding text chunk_size chunk_overlap encoding_name =
           Some (Inr (map (\<lambda>j. decode enc (token_window (encode enc text) chunk_size (chunk_size - chunk_overlap) j))
                      [0..<window_count (length (encode enc text)) chunk_size (chunk_size - chunk_overlap)]))
    \<and> (\<forall>j < window_count (length (encode enc text)) chunk_size (chunk_size - chunk_overlap).
          token_window (encode enc text) chunk_size (chunk_size - chunk_overlap) j \<noteq> [])
    \<and> (\<forall>j. Suc j < window_count (length (encode enc text)) chunk_size (chunk_size - chunk_overlap) \<longrightarrow>
          int j * (chunk_size - chunk_overlap) + chunk_size < int (length (encode enc text)))
    \<and> int (length (encode enc text)) \<le>
          int (window_count (length (encode enc text)) chunk_size (chunk_size - chunk_overlap) - 1)
            * (chunk_size - chunk_overlap) + chunk_size
    \<and> (length (encode enc text) = 600 \<and> chunk_size = 512 \<and> chunk_overlap = 50 \<longrightarrow>
          chunk_text get_encoding text chunk_size chunk_overlap encoding_name =
            Some (Inr [decode enc (take 512 (encode enc text)), decode enc (drop 462 (encode enc text))]))"
proof -
  let ?tokens = "encode enc text"
  let ?st = "chunk_size - chunk_overlap"
  let ?q = "(int (length ?tokens) - chunk_size + ?st - 1) div ?st"
  have st: "0 < ?st" and le: "?st \<le> chunk_size" using assms(2,3) by simp_all
  note n = assms(6)
  have q0: "0 \<le> ?q" by (rule window_bounds(1)[OF st le n])
  have wc: "int (window_count (length ?tokens) chunk_size ?st - 1) = ?q"
    using q0 by (simp add: window_count_def)
  have run: "chunk_text get_encoding text chunk_size chunk_overlap encoding_name =
           Some (Inr (map (\<lambda>j. decode enc (token_window ?tokens chunk_size ?st j))
                      [0..<window_count (length ?tokens) chunk_size ?st]))"
    using assms chunk_loop_token_windows[OF st le n, of enc]
    by (simp add: chunk_text_def Let_def)
  have nonempty: "token_window ?tokens chunk_size ?st j \<noteq> []"
    if "j < window_count (length ?tokens) chunk_size ?st" for j
  proof -
    have "int j \<le> ?q" using that q0 by (simp add: window_count_def)
    then have "int j * ?st < int (length ?tokens)" by (rule window_bounds(2)[OF st le n])
    moreover have "int j * ?st = int (j * nat ?st)" using st by simp
    ultimately have "j * nat ?st < length ?tokens" by (simp only: of_nat_less_iff)
    then show ?thesis using assms(1) by (simp add: token_window_def)
  qed
  have before: "int j * ?st + chunk_size < int (length ?tokens)"
    if "Suc j < window_count (length ?tokens) chunk_size ?st" for j
  proof -
    have "int j < ?q" using that q0 by (simp add: window_count_def)
    then show ?thesis by (rule window_bounds(3)[OF st le n])
  qed
  have last: "int (length ?tokens) \<le>
          int (window_count (length ?tokens) chunk_size ?st - 1) * ?st + chunk_size"
    unfolding wc by (rule window_bounds(4)[OF st le n])
  have scenario: "chunk_text get_encoding text chunk_size chunk_overlap encoding_name =
            Some (Inr [decode enc (take 512 ?tokens), decode enc (drop 462 ?tokens)])"
    if "length ?tokens = 600 \<and> chunk_size = 512 \<and> chunk_overlap = 50"
  proof -
    have "window_count (length ?tokens) chunk_size ?st = 2"
      using that by (simp add: window_count_def)
    moreover have "[0..<2] = [0, Suc 0]" by (simp add: upt_rec)
    ultimately show ?thesis using run that by (simp add: token_window_def)
  qed
  show ?thesis using run nonempty before last scenario by blast
qed

theorem chunk_text_windowing_witness:
  "(0::int) < 512 \<and> (0::int) \<le> 50 \<and> (50::int) < 512 \<and> strip (replicate 600 (CHR ''a'')) \<noteq> []
   \<and> byte_encodings ''cl100k_base'' = Some byte_encoding
   \<and> 512 < int (length (encode byte_encoding (replicate 600 (CHR ''a''))))
   \<and> chunk_text byte_encodings (replicate 600 (CHR ''a'')) 512 50 ''cl100k_base'' =
       Some (Inr [replicate 512 (CHR ''a''), replicate 138 (CHR ''a'')])"
proof -
  have h4: "strip (replicate 600 (CHR ''a'')) \<noteq> []" by (simp add: strip_def py_isspace_def)
  have h5: "byte_encodings ''cl100k_base'' = Some byte_encoding" by (simp add: byte_encodings_def)
  have h6: "512 < int (length (encode byte_encoding (replicate 600 (CHR ''a''))))"
    by (simp add: byte_encoding_def)
  have "chunk_text byte_encodings (replicate 600 (CHR ''a'')) 512 50 ''cl100k_base'' =
       Some (Inr [replicate 512 (CHR ''a''), replicate 138 (CHR ''a'')])"
  proof -
    have n1: "(0::int) < 512" and n2: "(0::int) \<le> 50" and n3: "(50::int) < 512" by simp_all
    have len: "length (encode byte_encoding (replicate 600 (CHR ''a''))) = 600"
      by (simp add: byte_encoding_def)
    from chunk_text_windowing[of 512 50 "replicate 600 (CHR ''a'')" byte_encodings "''cl100k_base''"
           byte_encoding, OF n1 n2 n3 h4 h5 h6] len
    have "chunk_text byte_encodings (replicate 600 (CHR ''a'')) 512 50 ''cl100k_base'' =
       Some (Inr [decode byte_encoding (take 512 (encode byte_encoding (replicate 600 (CHR ''a'')))),
                  decode byte_encoding (drop 462 (encode byte_encoding (replicate 600 (CHR ''a''))))])"
      by blast
    moreover have "char_of (of_char (CHR ''a'') :: nat) = CHR ''a''" by (rule char_of_char)
    ultimately show ?thesis by (simp add: byte_encoding_def)
  qed
  then show ?thesis using h4 h5 h6 by simp
qed

text \<open>
  Claim C10 (single-chunk identity). For valid parameters, a non-blank text with at most
  \<open>chunk_size\<close> tokens gives exactly one chunk, the text itself and not a decoding of its
  tokens, and a blank text gives no chunk and no error.
\<close>

theorem single_chunk_identity:
  assumes "0 < chunk_size" and "0 \<le> chunk_overlap" and "chunk_overlap < chunk_size"
  shows "(strip text \<noteq> [] \<and> get_encoding encoding_name = Some enc
            \<and> int (length (encode enc text)) \<le> chunk_size \<longrightarrow>
          chunk_text get_encoding text chunk_size chunk_overlap encoding_name = Some (Inr [text]))
       \<and> (strip text = [] \<longrightarrow>
          chunk_text get_encoding text chunk_size chunk_overlap encoding_name = Some (Inr []))"
  using assms by (simp add: chunk_text_def Let_def)

theorem single_chunk_identity_witness:
  "(0::int) < 512 \<and> (0::int) \<le> 50 \<and> (50::int) < 512
   \<and> strip ''hello world'' \<noteq> []
   \<and> decode (the (lossy_encodings ''cl100k_base'')) (encode (the (lossy_encodings ''cl100k_base'')) ''hello world'') \<noteq> ''hello world''
   \<and> chunk_text lossy_encodings ''hello world'' 512 50 ''cl100k_base'' = Some (Inr [''hello world''])
   \<and> strip [CHR '' '', CHR 0x09, CHR 0x0A] = []
   \<and> chunk_text lossy_encodings [CHR '' '', CHR 0x09, CHR 0x0A] 512 50 ''cl100k_base'' = Some (Inr [])"
proof -
  have a: "strip ''hello world'' \<noteq> []" by (simp add: strip_def py_isspace_def)
  have b: "strip [CHR '' '', CHR 0x09, CHR 0x0A] = []" by (simp add: strip_def py_isspace_def)
  show ?thesis
    using a b
      single_chunk_identity[of 512 50 "''hello world''" lossy_encodings "''cl100k_base''"
        "\<lparr>encode = map of_char, decode = (\<lambda>ts. ''?'')\<rparr>"]
      single_chunk_identity[of 512 50 "[CHR '' '', CHR 0x09, CHR 0x0A]" lossy_encodings "''cl100k_base''"
        "\<lparr>encode = map of_char, decode = (\<lambda>ts. ''?'')\<rparr>"]
    by (simp add: lossy_encodings_def)
qed

section \<open>The vector store, ingestion and retrieval\<close>

lemma add_documents_stamps_uuid:
  assumes "add_documents float32 uuid4 store embeddings metadata_list = (Inr ids, store')"
    and "i < length metadata_list"
  shows "map_of (metadata store' ! (length (metadata store) + i)) ''document_id'' = Some (PStr (uuid4 i))"
proof -
  from assms(1) have len: "length embeddings = length metadata_list"
    and st: "metadata store' = metadata store @
                    map (\<lambda>(meta, doc_id). AList.update ''document_id'' (PStr doc_id) meta)
                        (zip metadata_list (map uuid4 [0..<length embeddings]))"
    by (auto simp: add_documents_def Let_def split: if_splits)
  show ?thesis
    using assms(2) len unfolding st by (simp add: nth_append update_conv')
qed

text \<open>
  Claim C6. On a store without records the retrieval of the document-understanding agent
  always ends in an exception, whatever the query, the embedding provider and the
  completion provider: \<^verbatim>\<open>similarity_search\<close> raises on the empty index before the agent
  gets to its "no context found" answer. It does not return that answer.
\<close>

theorem retrieve_on_empty_index_raises:
  "isl (BaseAgent_execute
          (DocumentUnderstandingAgent_process client call_llm format_value float32
             \<lparr>dimension = n, index = [], metadata = []\<rparr>) input_data)
   \<and> BaseAgent_execute
        (DocumentUnderstandingAgent_process (\<lambda>texts. Inr [[0, 0, 0]]) call_llm format_value float32
           \<lparr>dimension = 3, index = [], metadata = []\<rparr>)
        [(''query'', PStr ''business goals''), (''k'', PInt 5)] =
      Inl (ValueError ''Cannot search empty index'')"
  by (auto simp: BaseAgent_execute_def DocumentUnderstandingAgent_process_def Let_def
        generate_embeddings_def similarity_search_def dict_get_def
      split: sum.splits list.splits pyval.splits)

text \<open>
  Claim C7. Ingesting document \<open>doc-1\<close>, whose text is one chunk: the pipeline puts
  \<open>doc-1\<close> under \<open>document_id\<close> in the chunk's metadata, and \<^verbatim>\<open>add_documents\<close> then
  stores the fresh identifier under the same key, so the stored record's \<open>document_id\<close>
  is the fresh identifier and no longer the document's.
\<close>

theorem ingested_document_id_overwritten:
  "map_option (\<lambda>(r, p). (r, metadata (vector_store p)))
     (ingest_document (\<lambda>path content_type. Inr ''hello world'') byte_encodings
        (\<lambda>texts. Inr (map (\<lambda>t. [1, 0, 0]) texts)) float32 (\<lambda>i. [''uuid-a'', ''uuid-b''] ! i)
        text_pipeline ''doc-1'' ''data/uploads/doc-1.txt'' ''text/plain'' None) =
   Some (Inr [(''document_id'', PStr ''doc-1''), (''chunks_created'', PInt 1),
              (''embeddings_generated'', PInt 1), (''chunks_stored'', PInt 1),
              (''text_length'', PInt 11)],
         [[(''document_id'', PStr ''uuid-a''), (''chunk_index'', PInt 0),
           (''text'', PStr ''hello world''), (''content_type'', PStr ''text/plain''),
           (''file_path'', PStr ''data/uploads/doc-1.txt'')]])"
  by (simp add: ingest_document_def chunk_text_def strip_def py_isspace_def byte_encodings_def
        byte_encoding_def generate_embeddings_def add_documents_def text_pipeline_def Let_def)

end
